theory Spec2Isabelle
  imports Main "HOL-Library.Sublist"
begin

section \<open>Python values\<close>

text \<open>
  The pipeline of rules2lint passes around values decoded from JSON and dictionaries
  built by the template table. They are modelled by the JSON fragment of Python's
  values: \<open>None\<close>, booleans, (unbounded) integers, strings, lists and dictionaries with
  string keys. Floats are left out. A dictionary is an association list that is read
  with \<open>map_of\<close>. A string is the list of the bytes of its UTF-8 encoding.
\<close>

datatype pyval =
    PNone
  | PBool bool
  | PInt int
  | PStr string
  | PList "pyval list"
  | PDict "(string \<times> pyval) list"

text \<open>The exceptions (all of them subclasses of \<open>Exception\<close>) that the modelled code meets.\<close>

datatype exn =
    AttributeError
  | TypeError
  | IndexError
  | KeyError
  | JSONDecodeError
  | UnboundLocalError
  | OtherException

text \<open>
  The answer of the chat completion endpoint, as far as the code reads it:
  \<open>response.choices[0].message.content\<close>, where the content may be \<open>None\<close>.
\<close>

record chat_message =
  content :: "string option"

record chat_choice =
  message :: chat_message

record chat_completion =
  choices :: "chat_choice list"

text \<open>
  What the code writes with \<open>print\<close> and \<open>tqdm.write\<close>: one constructor for each
  message of the modelled functions, carrying the values interpolated into it.
\<close>

datatype log_event =
    ErrorApplyingTemplate pyval pyval string exn
  | WarnFlagMissingTerm string pyval
  | ProcessingFinalRules nat
  | ExtractingFlags
  | ErrorRetrievingResult exn
  | TracebackOf exn
  | AggregatingConfigs nat
  | WarnSkippingInvalidConfig pyval
  | ErrorDuringRefinement string exn
  | WarnMalformedResponse string pyval
  | ErrorParsingResponse string exn chat_choice
  | ErrorCallingAPI string exn

text \<open>
  A computation writes messages and then returns a value or raises: the messages written
  so far are kept when it raises.
\<close>

type_synonym 'a io = "log_event list \<times> (exn + 'a)"

text \<open>Truth value of a Python value, as \<open>if x\<close>, \<open>not x\<close> and \<open>x and y\<close> read it.\<close>

fun truthy :: "pyval \<Rightarrow> bool" where
  "truthy PNone = False"
| "truthy (PBool b) = b"
| "truthy (PInt i) = (i \<noteq> 0)"
| "truthy (PStr s) = (s \<noteq> [])"
| "truthy (PList xs) = (xs \<noteq> [])"
| "truthy (PDict d) = (d \<noteq> [])"

fun isinstance_dict :: "pyval \<Rightarrow> bool" where
  "isinstance_dict (PDict d) = True"
| "isinstance_dict v = False"

text \<open>
  Membership in a Python set goes through \<open>hash\<close> and \<open>==\<close>: lists and dictionaries are
  unhashable (\<open>TypeError\<close>), and \<open>True\<close> and \<open>1\<close> (\<open>False\<close> and \<open>0\<close>) are the same
  element. A set of Python values is modelled as the set of the keys of its elements.
\<close>

datatype pykey = KNone | KInt int | KStr string

fun hash_key :: "pyval \<Rightarrow> exn + pykey" where
  "hash_key PNone = Inr KNone"
| "hash_key (PBool b) = Inr (KInt (if b then 1 else 0))"
| "hash_key (PInt i) = Inr (KInt i)"
| "hash_key (PStr s) = Inr (KStr s)"
| "hash_key (PList xs) = Inl TypeError"
| "hash_key (PDict d) = Inl TypeError"

text \<open>\<open>d.get(k, default)\<close> on a dictionary.\<close>

definition dict_get :: "(string \<times> pyval) list \<Rightarrow> string \<Rightarrow> pyval \<Rightarrow> pyval" where
  "dict_get d k dflt = (case map_of d k of None \<Rightarrow> dflt | Some v \<Rightarrow> v)"

text \<open>
  \<open>v.get(k, default)\<close> on any value: only a dictionary has the method; on every other
  value of the fragment the attribute lookup raises \<open>AttributeError\<close>.
\<close>

fun py_get :: "pyval \<Rightarrow> string \<Rightarrow> pyval \<Rightarrow> exn + pyval" where
  "py_get (PDict d) k dflt = Inr (dict_get d k dflt)"
| "py_get v k dflt = Inl AttributeError"

section \<open>The templates and \<open>generate_eslint_config_object\<close>\<close>

text \<open>
  The three characters that the escaping is about.
\<close>

definition single_quote :: string where "single_quote = [CHR 0x27]"
definition double_quote :: string where "double_quote = [CHR 0x22]"
definition backslash :: string where "backslash = [CHR 0x5C]"

text \<open>
  \<open>s.replace(old, new)\<close> for a pattern \<open>old\<close> of one character: every occurrence is
  replaced, from left to right.
\<close>

fun str_replace :: "char \<Rightarrow> string \<Rightarrow> string \<Rightarrow> string" where
  "str_replace old new [] = []"
| "str_replace old new (c # cs) =
     (if c = old then new @ str_replace old new cs else c # str_replace old new cs)"

text \<open>
  \<open>s.capitalize()\<close>. A string is a list of bytes, the UTF-8 encoding of the Python string.
  On a string of ASCII characters the result has the first character in upper case and
  the others in lower case. On a string with a character outside ASCII the result follows
  the case mapping of Unicode, which is not modelled: it is a parameter of the model,
  \<open>unicode_capitalize\<close>, about which nothing is assumed.
\<close>

definition ascii_lowercase :: string where
  "ascii_lowercase = ''abcdefghijklmnopqrstuvwxyz''"

definition ascii_uppercase :: string where
  "ascii_uppercase = ''ABCDEFGHIJKLMNOPQRSTUVWXYZ''"

definition upper_char :: "char \<Rightarrow> char" where
  "upper_char c =
     (case map_of (zip ascii_lowercase ascii_uppercase) c of None \<Rightarrow> c | Some u \<Rightarrow> u)"

definition lower_char :: "char \<Rightarrow> char" where
  "lower_char c =
     (case map_of (zip ascii_uppercase ascii_lowercase) c of None \<Rightarrow> c | Some l \<Rightarrow> l)"

fun ascii_capitalize :: "string \<Rightarrow> string" where
  "ascii_capitalize [] = []"
| "ascii_capitalize (c # cs) = upper_char c # map lower_char cs"

definition is_ascii :: "char \<Rightarrow> bool" where
  "is_ascii c = (\<not> digit7 c)"

definition capitalize :: "(string \<Rightarrow> string) \<Rightarrow> string \<Rightarrow> string" where
  "capitalize unicode_capitalize s =
     (if list_all is_ascii s then ascii_capitalize s else unicode_capitalize s)"

text \<open>
  The two escapings of \<open>generate_eslint_config_object\<close>: for a JavaScript string
  (backslash first, then the single and the double quote), and for a selector (the single
  quote only).
\<close>

definition js_escape :: "string \<Rightarrow> string" where
  "js_escape s =
     str_replace (CHR 0x22) (backslash @ double_quote)
       (str_replace (CHR 0x27) (backslash @ single_quote)
         (str_replace (CHR 0x5C) (backslash @ backslash) s))"

definition selector_escape :: "string \<Rightarrow> string" where
  "selector_escape s = str_replace (CHR 0x27) (backslash @ single_quote) s"

text \<open>
  The entries of \<open>KEYWORD_TEMPLATES\<close> of \<open>config.py\<close>. A template is a function of the
  keyword and the rule; its result is a sum so that a template that raises can be written
  (the seven templates of the table never do). The template of \<open>Keyword\<close>, and with it
  the table and every function that uses the table, takes the parameter \<open>cap\<close> of
  \<open>capitalize\<close>.
\<close>

type_synonym template = "string \<Rightarrow> string \<Rightarrow> exn + pyval"

definition pattern_dict :: "string \<Rightarrow> string \<Rightarrow> pyval" where
  "pattern_dict sel msg = PDict [(''selector'', PStr sel), (''message'', PStr msg)]"

definition identifier_template :: template where
  "identifier_template kw rule = Inr (pattern_dict
     (''Identifier[name='' @ single_quote @ kw @ single_quote @ '']'')
     (''Usage of identifier '' @ single_quote @ kw @ single_quote @
      '' is restricted by rule: '' @ rule))"

definition literal_template :: template where
  "literal_template kw rule = Inr (pattern_dict
     (''Literal[value='' @ single_quote @ kw @ single_quote @ '']'')
     (''Usage of literal '' @ single_quote @ kw @ single_quote @
      '' is restricted by rule: '' @ rule))"

definition operator_template :: template where
  "operator_template kw rule = Inr (pattern_dict
     ('':matches(BinaryExpression, LogicalExpression)[operator='' @ single_quote @ kw @
      single_quote @ '']'')
     (''Usage of operator '' @ single_quote @ kw @ single_quote @
      '' is restricted by rule: '' @ rule))"

definition keyword_template :: "(string \<Rightarrow> string) \<Rightarrow> template" where
  "keyword_template cap kw rule = Inr (pattern_dict
     (capitalize cap kw @ ''Statement'')
     (''Usage of keyword '' @ single_quote @ kw @ single_quote @
      '' is restricted by rule: '' @ rule))"

definition property_template :: template where
  "property_template kw rule = Inr (pattern_dict
     (''MemberExpression[property.name='' @ single_quote @ kw @ single_quote @ '']'')
     (''Usage of property '' @ single_quote @ kw @ single_quote @
      '' is restricted by rule: '' @ rule))"

definition import_template :: template where
  "import_template kw rule = Inr (pattern_dict
     (''ImportDeclaration[source.value='' @ single_quote @ kw @ single_quote @ '']'')
     (''Import from '' @ single_quote @ kw @ single_quote @
      '' is restricted by rule: '' @ rule))"

definition unknown_template :: template where
  "unknown_template kw rule = Inr (pattern_dict
     ('':matches(Identifier[name='' @ single_quote @ kw @ single_quote @
      ''], Literal[value='' @ single_quote @ kw @ single_quote @ ''])'')
     (''Usage of '' @ single_quote @ kw @ single_quote @
      '' is restricted by rule: '' @ rule @ '' (context unknown)''))"

definition KEYWORD_TEMPLATES :: "(string \<Rightarrow> string) \<Rightarrow> (string \<times> template) list" where
  "KEYWORD_TEMPLATES cap =
     [(''Identifier'', identifier_template),
      (''Literal'', literal_template),
      (''Operator'', operator_template),
      (''Keyword'', keyword_template cap),
      (''Property'', property_template),
      (''Import'', import_template),
      (''Unknown'', unknown_template)]"

text \<open>
  The escapings applied to a term that is any Python value: only a string has the method
  \<open>replace\<close>.
\<close>

fun py_js_escape :: "pyval \<Rightarrow> exn + string" where
  "py_js_escape (PStr s) = Inr (js_escape s)"
| "py_js_escape v = Inl AttributeError"

fun py_selector_escape :: "pyval \<Rightarrow> exn + string" where
  "py_selector_escape (PStr s) = Inr (selector_escape s)"
| "py_selector_escape v = Inl AttributeError"

text \<open>
  \<open>KEYWORD_TEMPLATES.get(context, KEYWORD_TEMPLATES["Unknown"])\<close>: the default is looked up
  first (\<open>KeyError\<close> when the table has no such entry), then the context is hashed.
\<close>

definition templates_get :: "(string \<times> template) list \<Rightarrow> pyval \<Rightarrow> exn + template" where
  "templates_get templates context =
     (case map_of templates ''Unknown'' of
        None \<Rightarrow> Inl KeyError
      | Some fallback \<Rightarrow>
          (case hash_key context of
             Inl e \<Rightarrow> Inl e
           | Inr (KStr s) \<Rightarrow>
               (case map_of templates s of None \<Rightarrow> Inr fallback | Some f \<Rightarrow> Inr f)
           | Inr k \<Rightarrow> Inr fallback))"

text \<open>
  \<open>generate_eslint_config_object\<close> of \<open>rule_processing.py\<close>, for any table of templates.
  The value \<open>js_escaped_term\<close> is computed and not used: the template receives the
  selector-escaped term and the escaped rule text. Only the call of the template stands
  inside \<open>try\<close>.
\<close>

definition generate_with ::
  "(string \<times> template) list \<Rightarrow> pyval \<Rightarrow> pyval \<Rightarrow> string \<Rightarrow> pyval io" where
  "generate_with templates term context rule_text =
     (case py_js_escape term of
        Inl e \<Rightarrow> ([], Inl e)
      | Inr js_escaped_term \<Rightarrow>
          let js_escaped_rule_text = js_escape rule_text in
          (case py_selector_escape term of
             Inl e \<Rightarrow> ([], Inl e)
           | Inr selector_escaped_term \<Rightarrow>
               (case templates_get templates context of
                  Inl e \<Rightarrow> ([], Inl e)
                | Inr template_func \<Rightarrow>
                    (case template_func selector_escaped_term js_escaped_rule_text of
                       Inr config_object \<Rightarrow> ([], Inr config_object)
                     | Inl e \<Rightarrow>
                         ([ErrorApplyingTemplate term context rule_text e], Inr PNone)))))"

definition generate_eslint_config_object ::
  "(string \<Rightarrow> string) \<Rightarrow> pyval \<Rightarrow> pyval \<Rightarrow> string \<Rightarrow> pyval io" where
  "generate_eslint_config_object cap = generate_with (KEYWORD_TEMPLATES cap)"

text \<open>
  The six context tags other than \<open>Unknown\<close>.
\<close>

definition recognized_contexts :: "string list" where
  "recognized_contexts = [''Identifier'', ''Literal'', ''Operator'', ''Keyword'', ''Property'', ''Import'']"

section \<open>The gateway and the stages of \<open>llm_interactions.py\<close>\<close>

text \<open>
  The call \<open>client.chat.completions.create(...)\<close> is an input of the model: it
  raised an exception (\<open>Inl\<close>) or returned a completion (\<open>Inr\<close>). The decoder
  \<open>json.loads\<close> is a parameter \<open>loads\<close> of the model: it returns the decoded value or
  raises. On the content \<open>None\<close> it raises \<open>TypeError\<close>.
\<close>

definition json_loads :: "(string \<Rightarrow> exn + pyval) \<Rightarrow> string option \<Rightarrow> exn + pyval" where
  "json_loads loads c = (case c of None \<Rightarrow> Inl TypeError | Some s \<Rightarrow> loads s)"

text \<open>
  \<open>json.loads(response.choices[0].message.content)\<close>, the first statements of the
  \<open>try\<close> blocks of both stages: an empty list of choices raises \<open>IndexError\<close>.
\<close>

definition parse_response ::
  "(string \<Rightarrow> exn + pyval) \<Rightarrow> exn + chat_completion \<Rightarrow> exn + pyval" where
  "parse_response loads call =
     (case call of
        Inl e \<Rightarrow> Inl e
      | Inr response \<Rightarrow>
          (case choices response of
             [] \<Rightarrow> Inl IndexError
           | c # cs \<Rightarrow> json_loads loads (content (message c))))"

text \<open>
  The body of \<open>try\<close> in \<open>llm_refine_rule\<close>: the two \<open>get\<close> calls with their defaults
  and the normalisation of the answer.
\<close>

definition refine_try ::
  "(string \<Rightarrow> exn + pyval) \<Rightarrow> exn + chat_completion \<Rightarrow> string \<Rightarrow> exn + pyval \<times> pyval" where
  "refine_try loads call rule_text =
     (case parse_response loads call of
        Inl e \<Rightarrow> Inl e
      | Inr result_json \<Rightarrow>
          (case py_get result_json ''outcome'' (PStr ''untranslatable'') of
             Inl e \<Rightarrow> Inl e
           | Inr outcome \<Rightarrow>
               (case py_get result_json ''refined_rules'' (PList []) of
                  Inl e \<Rightarrow> Inl e
                | Inr refined_list \<Rightarrow>
                    if outcome = PStr ''passed_through'' \<and> \<not> truthy refined_list then
                      Inr (outcome, PList [PStr rule_text])
                    else if outcome = PStr ''translated'' \<and> \<not> truthy refined_list then
                      Inr (PStr ''untranslatable'', refined_list)
                    else if outcome = PStr ''untranslatable'' then
                      Inr (outcome, PList [])
                    else Inr (outcome, refined_list))))"

text \<open>
  \<open>llm_refine_rule\<close>: every exception of the body is caught, and the rule is passed
  through.
\<close>

definition llm_refine_rule ::
  "(string \<Rightarrow> exn + pyval) \<Rightarrow> exn + chat_completion \<Rightarrow> string \<Rightarrow> (pyval \<times> pyval) io" where
  "llm_refine_rule loads call rule_text =
     (case refine_try loads call rule_text of
        Inr r \<Rightarrow> ([], Inr r)
      | Inl e \<Rightarrow>
          ([ErrorDuringRefinement rule_text e],
           Inr (PStr ''passed_through'', PList [PStr rule_text])))"

text \<open>
  The body of \<open>try\<close> in \<open>llm_extract_flags\<close>: the value under \<open>flags\<close> is returned
  when the result is a dictionary that has the key with a list under it; the elements of
  the list are not looked at.
\<close>

definition extract_try ::
  "(string \<Rightarrow> exn + pyval) \<Rightarrow> exn + chat_completion \<Rightarrow> string \<Rightarrow> (pyval list) io" where
  "extract_try loads call rule_text =
     (case parse_response loads call of
        Inl e \<Rightarrow> ([], Inl e)
      | Inr result \<Rightarrow>
          (case result of
             PDict d \<Rightarrow>
               (case map_of d ''flags'' of
                  Some (PList flags) \<Rightarrow> ([], Inr flags)
                | _ \<Rightarrow> ([WarnMalformedResponse rule_text result], Inr []))
           | _ \<Rightarrow> ([WarnMalformedResponse rule_text result], Inr [])))"

text \<open>
  The exception classes of the first \<open>except\<close> clause of \<open>llm_extract_flags\<close>.
\<close>

definition parse_errors :: "exn list" where
  "parse_errors = [JSONDecodeError, IndexError, AttributeError]"

text \<open>
  \<open>llm_extract_flags\<close> with its two handlers. The message of the first handler
  evaluates \<open>getattr(response, 'choices', [None])[0]\<close>: the name \<open>response\<close> is unbound
  when the call itself raised (\<open>UnboundLocalError\<close>), and the index raises
  \<open>IndexError\<close> when the list of choices is empty. An exception raised inside a handler
  leaves the function.
\<close>

definition llm_extract_flags ::
  "(string \<Rightarrow> exn + pyval) \<Rightarrow> exn + chat_completion \<Rightarrow> string \<Rightarrow> (pyval list) io" where
  "llm_extract_flags loads call rule_text =
     (case extract_try loads call rule_text of
        (l, Inr flags) \<Rightarrow> (l, Inr flags)
      | (l, Inl e) \<Rightarrow>
          if e \<in> set parse_errors then
            (case call of
               Inl e' \<Rightarrow> (l, Inl UnboundLocalError)
             | Inr response \<Rightarrow>
                 (case choices response of
                    [] \<Rightarrow> (l, Inl IndexError)
                  | c # cs \<Rightarrow> (l @ [ErrorParsingResponse rule_text e c], Inr [])))
          else (l @ [ErrorCallingAPI rule_text e], Inr []))"

section \<open>Processing the refined rules: \<open>rule_processing.py\<close>\<close>

text \<open>
  The loop of \<open>process_refined_rule\<close> over the extracted flags. A flag that is not
  a dictionary raises \<open>AttributeError\<close> at its first \<open>get\<close>.
\<close>

fun flags_loop ::
  "(string \<Rightarrow> string) \<Rightarrow> string \<Rightarrow> pyval list \<Rightarrow> (pyval \<times> pyval) list \<Rightarrow> ((pyval \<times> pyval) list) io" where
  "flags_loop cap rule_text [] generated_configs = ([], Inr generated_configs)"
| "flags_loop cap rule_text (flag # rest) generated_configs =
     (case py_get flag ''term'' PNone of
        Inl e \<Rightarrow> ([], Inl e)
      | Inr term \<Rightarrow>
     (case py_get flag ''context'' (PStr ''Unknown'') of
        Inl e \<Rightarrow> ([], Inl e)
      | Inr context \<Rightarrow>
     (case py_get flag ''severity'' (PStr ''warn'') of
        Inl e \<Rightarrow> ([], Inl e)
      | Inr severity \<Rightarrow>
          if \<not> truthy term then
            (case flags_loop cap rule_text rest generated_configs of
               (l, r) \<Rightarrow> (WarnFlagMissingTerm rule_text flag # l, r))
          else
            (case generate_eslint_config_object cap term context rule_text of
               (l, Inl e) \<Rightarrow> (l, Inl e)
             | (l, Inr config_object) \<Rightarrow>
                 (case flags_loop cap rule_text rest
                         (if truthy config_object
                          then generated_configs @ [(severity, config_object)]
                          else generated_configs) of
                    (l', r) \<Rightarrow> (l @ l', r))))))"

definition process_refined_rule ::
  "(string \<Rightarrow> string) \<Rightarrow> (string \<Rightarrow> exn + pyval) \<Rightarrow> exn + chat_completion \<Rightarrow> string \<Rightarrow> ((pyval \<times> pyval) list) io" where
  "process_refined_rule cap loads call rule_text =
     (case llm_extract_flags loads call rule_text of
        (l, Inl e) \<Rightarrow> (l, Inl e)
      | (l, Inr extracted_flags) \<Rightarrow>
          if extracted_flags = [] then (l, Inr [])
          else (case flags_loop cap rule_text extracted_flags [] of (l', r) \<Rightarrow> (l @ l', r)))"

text \<open>
  The loop of \<open>run_parallel_rule_processing\<close> over the completed futures. A future
  is the outcome of its task: what the task wrote, and its result or the exception it
  raised. The messages of a task are written by a worker thread and may interleave with
  other messages; the model lists them before the messages of the task's join.
\<close>

fun collect_results ::
  "(((pyval \<times> pyval) list) io) list \<Rightarrow> (pyval \<times> pyval) list \<Rightarrow>
   log_event list \<times> (pyval \<times> pyval) list" where
  "collect_results [] all_flag_configs = ([], all_flag_configs)"
| "collect_results ((task_log, Inr result_list) # futures) all_flag_configs =
     (case collect_results futures
             (if result_list \<noteq> [] then all_flag_configs @ result_list else all_flag_configs) of
        (l, r) \<Rightarrow> (task_log @ l, r))"
| "collect_results ((task_log, Inl exc) # futures) all_flag_configs =
     (case collect_results futures all_flag_configs of
        (l, r) \<Rightarrow> (task_log @ [ErrorRetrievingResult exc, TracebackOf exc] @ l, r))"

text \<open>
  \<open>run_parallel_rule_processing\<close>. The argument lists the refined rules, each with the
  outcome of its gateway call, in the order in which their futures complete
  (\<open>as_completed\<close>): every order is possible, and the properties below hold for every
  list.
\<close>

definition run_parallel_rule_processing ::
  "(string \<Rightarrow> string) \<Rightarrow> (string \<Rightarrow> exn + pyval) \<Rightarrow> (string \<times> (exn + chat_completion)) list \<Rightarrow>
   ((pyval \<times> pyval) list) io" where
  "run_parallel_rule_processing cap loads completed =
     (case collect_results
             (map (\<lambda>(rule_text, call). process_refined_rule cap loads call rule_text) completed) [] of
        (l, all_flag_configs) \<Rightarrow>
          ([ProcessingFinalRules (length completed), ExtractingFlags] @ l, Inr all_flag_configs))"

section \<open>Notions for stating the properties of the orchestrator\<close>

text \<open>
  The rule text that a message carries, if it carries one.
\<close>

fun event_rule_text :: "log_event \<Rightarrow> string option" where
  "event_rule_text (ErrorApplyingTemplate term context rule_text e) = Some rule_text"
| "event_rule_text (WarnFlagMissingTerm rule_text flag) = Some rule_text"
| "event_rule_text (ErrorDuringRefinement rule_text e) = Some rule_text"
| "event_rule_text (WarnMalformedResponse rule_text result) = Some rule_text"
| "event_rule_text (ErrorParsingResponse rule_text e c) = Some rule_text"
| "event_rule_text (ErrorCallingAPI rule_text e) = Some rule_text"
| "event_rule_text ev = None"

text \<open>
  The pairs that a task contributes (none when it raises), and the exception that it
  raises (none when it returns).
\<close>

definition task_pairs ::
  "(string \<Rightarrow> string) \<Rightarrow> (string \<Rightarrow> exn + pyval) \<Rightarrow> string \<times> (exn + chat_completion) \<Rightarrow> (pyval \<times> pyval) list" where
  "task_pairs cap loads task =
     (case snd (process_refined_rule cap loads (snd task) (fst task)) of
        Inr result_list \<Rightarrow> result_list
      | Inl exc \<Rightarrow> [])"

definition task_failure ::
  "(string \<Rightarrow> string) \<Rightarrow> (string \<Rightarrow> exn + pyval) \<Rightarrow> string \<times> (exn + chat_completion) \<Rightarrow> exn option" where
  "task_failure cap loads task =
     (case snd (process_refined_rule cap loads (snd task) (fst task)) of
        Inr result_list \<Rightarrow> None
      | Inl exc \<Rightarrow> Some exc)"

section \<open>The aggregator: \<open>aggregate_eslint_configs\<close> of \<open>rule_processing.py\<close>\<close>

record agg_state =
  combined_syntax_configs :: "pyval list"
  highest_severity :: string
  seen_selectors :: "pykey set"

definition agg_init :: agg_state where
  "agg_init = \<lparr>combined_syntax_configs = [], highest_severity = ''warn'', seen_selectors = {}\<rparr>"

text \<open>
  One iteration of the loop over \<open>all_flag_configs\<close>. The selector is read with
  \<open>config.get("selector")\<close> before \<open>isinstance(config, dict)\<close> is tested.
\<close>

definition agg_step :: "pyval \<Rightarrow> pyval \<Rightarrow> agg_state \<Rightarrow> agg_state io" where
  "agg_step severity config st =
     (case py_get config ''selector'' PNone of
        Inl e \<Rightarrow> ([], Inl e)
      | Inr selector \<Rightarrow>
          if isinstance_dict config \<and> truthy selector then
            (case hash_key selector of
               Inl e \<Rightarrow> ([], Inl e)
             | Inr k \<Rightarrow>
                 if k \<notin> seen_selectors st then
                   ([], Inr \<lparr>combined_syntax_configs = combined_syntax_configs st @ [config],
                             highest_severity =
                               (if severity = PStr ''error'' then ''error''
                                else highest_severity st),
                             seen_selectors = insert k (seen_selectors st)\<rparr>)
                 else if \<not> isinstance_dict config then
                   ([WarnSkippingInvalidConfig config], Inr st)
                 else ([], Inr st))
          else if \<not> isinstance_dict config then
            ([WarnSkippingInvalidConfig config], Inr st)
          else ([], Inr st))"

fun agg_loop :: "(pyval \<times> pyval) list \<Rightarrow> agg_state \<Rightarrow> agg_state io" where
  "agg_loop [] st = ([], Inr st)"
| "agg_loop ((severity, config) # rest) st =
     (case agg_step severity config st of
        (l, Inl e) \<Rightarrow> (l, Inl e)
      | (l, Inr st') \<Rightarrow> (case agg_loop rest st' of (l', r) \<Rightarrow> (l @ l', r)))"

text \<open>
  The code after the loop: the rules object has the key \<open>no-restricted-syntax\<close> only
  when some configuration was kept.
\<close>

definition agg_final :: "agg_state \<Rightarrow> pyval \<times> string \<times> nat" where
  "agg_final st =
     (if combined_syntax_configs st \<noteq> [] then
        (PDict [(''no-restricted-syntax'',
                 PList (PStr (highest_severity st) # combined_syntax_configs st))],
         highest_severity st, length (combined_syntax_configs st))
      else (PDict [], highest_severity st, 0))"

definition aggregate_eslint_configs :: "(pyval \<times> pyval) list \<Rightarrow> (pyval \<times> string \<times> nat) io" where
  "aggregate_eslint_configs all_flag_configs =
     (case agg_loop all_flag_configs agg_init of
        (l, Inl e) \<Rightarrow> (AggregatingConfigs (length all_flag_configs) # l, Inl e)
      | (l, Inr st) \<Rightarrow> (AggregatingConfigs (length all_flag_configs) # l, Inr (agg_final st)))"

section \<open>Notions for stating the properties of the aggregator\<close>

text \<open>The value of \<open>config.get("selector")\<close> for a dictionary.\<close>

definition selector_of :: "pyval \<Rightarrow> pyval" where
  "selector_of c = (case c of PDict d \<Rightarrow> dict_get d ''selector'' PNone | _ \<Rightarrow> PNone)"

text \<open>The key under which a configuration is entered into \<open>seen_selectors\<close>: defined for
  a dictionary whose selector is true and hashable.\<close>

definition cfg_key :: "pyval \<Rightarrow> pykey option" where
  "cfg_key c =
     (if isinstance_dict c \<and> truthy (selector_of c) then
        (case hash_key (selector_of c) of Inr k \<Rightarrow> Some k | Inl e \<Rightarrow> None)
      else None)"

text \<open>The state after a configuration has been appended.\<close>

definition keep :: "pyval \<Rightarrow> pyval \<Rightarrow> agg_state \<Rightarrow> agg_state" where
  "keep severity config st =
     \<lparr>combined_syntax_configs = combined_syntax_configs st @ [config],
      highest_severity = (if severity = PStr ''error'' then ''error'' else highest_severity st),
      seen_selectors = insert (the (cfg_key config)) (seen_selectors st)\<rparr>"

text \<open>The loop invariant: the kept configurations have pairwise different keys, the set of
  seen selectors holds exactly these keys, and the severity is \<open>error\<close> only when some
  configuration was kept.\<close>

definition agg_inv :: "agg_state \<Rightarrow> bool" where
  "agg_inv st =
     (list_all (\<lambda>c. cfg_key c \<noteq> None) (combined_syntax_configs st) \<and>
      distinct (map cfg_key (combined_syntax_configs st)) \<and>
      seen_selectors st = set (map (\<lambda>c. the (cfg_key c)) (combined_syntax_configs st)) \<and>
      (highest_severity st = ''warn'' \<or>
       highest_severity st = ''error'' \<and> combined_syntax_configs st \<noteq> []))"

text \<open>The sequence of patterns of a returned rules object: the value of
  \<open>no-restricted-syntax\<close> without its first element, the severity.\<close>

definition patterns_of :: "pyval \<Rightarrow> pyval list" where
  "patterns_of rules =
     (case rules of
        PDict d \<Rightarrow> (case map_of d ''no-restricted-syntax'' of
                      Some (PList (s # cfgs)) \<Rightarrow> cfgs
                    | _ \<Rightarrow> [])
      | _ \<Rightarrow> [])"

text \<open>Re-wrapping a result of the aggregator as an input of the aggregator: each kept
  configuration paired with the overall severity.\<close>

definition rewrap :: "pyval \<times> string \<times> nat \<Rightarrow> (pyval \<times> pyval) list" where
  "rewrap out = (case out of (rules, sev, n) \<Rightarrow> map (Pair (PStr sev)) (patterns_of rules))"

text \<open>A PatternConfig of the specification: a dictionary whose \<open>selector\<close> (the pattern)
  is a string.\<close>

definition pattern_config :: "pyval \<Rightarrow> bool" where
  "pattern_config c =
     (case c of
        PDict d \<Rightarrow> (case map_of d ''selector'' of Some (PStr s) \<Rightarrow> True | _ \<Rightarrow> False)
      | _ \<Rightarrow> False)"

text \<open>The pattern of a PatternConfig.\<close>

definition pattern :: "pyval \<Rightarrow> string" where
  "pattern c =
     (case c of
        PDict d \<Rightarrow> (case map_of d ''selector'' of Some (PStr s) \<Rightarrow> s | _ \<Rightarrow> [])
      | _ \<Rightarrow> [])"

text \<open>Deduplication as the specification words it: a configuration is skipped when its
  pattern was seen before, and appended and marked as seen otherwise.\<close>

fun dedup_by_pattern :: "string set \<Rightarrow> pyval list \<Rightarrow> pyval list" where
  "dedup_by_pattern seen [] = []"
| "dedup_by_pattern seen (c # cs) =
     (if pattern c \<in> seen then dedup_by_pattern seen cs
      else c # dedup_by_pattern (insert (pattern c) seen) cs)"

text \<open>The same with the guard of the code: a configuration whose pattern is the empty
  string is skipped as well.\<close>

fun dedup_by_nonempty_pattern :: "string set \<Rightarrow> pyval list \<Rightarrow> pyval list" where
  "dedup_by_nonempty_pattern seen [] = []"
| "dedup_by_nonempty_pattern seen (c # cs) =
     (if pattern c = [] \<or> pattern c \<in> seen then dedup_by_nonempty_pattern seen cs
      else c # dedup_by_nonempty_pattern (insert (pattern c) seen) cs)"
section \<open>Values for the examples\<close>

text \<open>
  A decoder for the examples: it decodes the few contents that the examples use (written
  without the quotation marks of JSON) and raises \<open>JSONDecodeError\<close> on every other
  string. \<open>answer s\<close> is a completion with one choice of content \<open>s\<close>, and
  \<open>failing_template\<close> is a template that raises. The strings of the examples are ASCII,
  so that the parameter of \<open>capitalize\<close> is never applied in them: \<open>ascii_only\<close> stands
  in for it.
\<close>

definition sample_loads :: "string \<Rightarrow> exn + pyval" where
  "sample_loads s =
     (if s = ''flags: [eval]'' then Inr (PDict [(''flags'', PList [PStr ''eval''])])
      else if s = ''flags: [{term: debugger, context: Keyword, severity: error}]'' then
        Inr (PDict [(''flags'', PList [PDict [(''term'', PStr ''debugger''),
          (''context'', PStr ''Keyword''), (''severity'', PStr ''error'')]])])
      else if s = ''outcome: passed_through, refined_rules: []'' then
        Inr (PDict [(''outcome'', PStr ''passed_through''), (''refined_rules'', PList [])])
      else if s = ''outcome: translated, refined_rules: []'' then
        Inr (PDict [(''outcome'', PStr ''translated''), (''refined_rules'', PList [])])
      else if s = ''outcome: untranslatable, refined_rules: [x]'' then
        Inr (PDict [(''outcome'', PStr ''untranslatable''), (''refined_rules'', PList [PStr ''x''])])
      else Inl JSONDecodeError)"

definition answer :: "string \<Rightarrow> exn + chat_completion" where
  "answer s = Inr \<lparr>choices = [\<lparr>message = \<lparr>content = Some s\<rparr>\<rparr>]\<rparr>"

definition failing_template :: template where
  "failing_template kw rule = Inl TypeError"

definition ascii_only :: "string \<Rightarrow> string" where
  "ascii_only s = s"

section \<open>Properties of \<open>generate_eslint_config_object\<close>\<close>

lemma generate_with_strings:
  "generate_with templates (PStr term) context rule_text =
     (case templates_get templates context of
        Inl e \<Rightarrow> ([], Inl e)
      | Inr f \<Rightarrow>
         (case f (selector_escape term) (js_escape rule_text) of
            Inr cfg \<Rightarrow> ([], Inr cfg)
          | Inl e \<Rightarrow> ([ErrorApplyingTemplate (PStr term) context rule_text e], Inr PNone)))"
  by (simp add: generate_with_def)

lemma templates_get_string:
  "map_of templates ''Unknown'' = Some u \<Longrightarrow>
   templates_get templates (PStr context) =
     Inr (case map_of templates context of None \<Rightarrow> u | Some f \<Rightarrow> f)"
  by (simp add: templates_get_def split: option.splits)

lemma KEYWORD_TEMPLATES_unknown: "map_of (KEYWORD_TEMPLATES cap) ''Unknown'' = Some unknown_template"
  by (simp add: KEYWORD_TEMPLATES_def)

lemma KEYWORD_TEMPLATES_unrecognized:
  "context \<notin> set recognized_contexts \<Longrightarrow>
   (case map_of (KEYWORD_TEMPLATES cap) context of None \<Rightarrow> unknown_template | Some f \<Rightarrow> f) =
     unknown_template"
  by (simp add: KEYWORD_TEMPLATES_def recognized_contexts_def)

lemma KEYWORD_TEMPLATES_total:
  "\<exists>cfg. (case map_of (KEYWORD_TEMPLATES cap) context of None \<Rightarrow> unknown_template | Some f \<Rightarrow> f) kw rule =
     Inr cfg"
  by (simp add: KEYWORD_TEMPLATES_def identifier_template_def literal_template_def
      operator_template_def keyword_template_def property_template_def import_template_def
      unknown_template_def)

text \<open>
  On strings the function applies the template of the context to the selector-escaped
  term and the escaped rule text: the term stands in the selector and in the message with
  the same escaping, that of the single quote.
\<close>

lemma generate_strings:
  "generate_eslint_config_object cap (PStr term) (PStr context) rule_text =
     ([], (case map_of (KEYWORD_TEMPLATES cap) context of None \<Rightarrow> unknown_template | Some f \<Rightarrow> f)
            (selector_escape term) (js_escape rule_text))"
proof -
  obtain cfg where
    "(case map_of (KEYWORD_TEMPLATES cap) context of None \<Rightarrow> unknown_template | Some f \<Rightarrow> f)
       (selector_escape term) (js_escape rule_text) = Inr cfg"
    using KEYWORD_TEMPLATES_total by blast
  then show ?thesis
    by (simp add: generate_eslint_config_object_def generate_with_strings
        templates_get_string [OF KEYWORD_TEMPLATES_unknown])
qed

text \<open>
  Every configuration rendered from strings is a dictionary with a selector that is a
  non-empty string.
\<close>

lemma generate_pattern_config:
  assumes "generate_eslint_config_object cap (PStr term) (PStr context) rule_text = (l, Inr cfg)"
  shows "pattern_config cfg \<and> pattern cfg \<noteq> []"
proof -
  have "(case map_of (KEYWORD_TEMPLATES cap) context of None \<Rightarrow> unknown_template | Some f \<Rightarrow> f)
          (selector_escape term) (js_escape rule_text) = Inr cfg"
    using assms by (simp add: generate_strings)
  then show ?thesis
    by (auto simp: KEYWORD_TEMPLATES_def identifier_template_def literal_template_def
        operator_template_def keyword_template_def property_template_def import_template_def
        unknown_template_def pattern_dict_def pattern_config_def pattern_def
        split: if_splits)
qed

lemmas template_eval =
  KEYWORD_TEMPLATES_def identifier_template_def literal_template_def
  operator_template_def keyword_template_def property_template_def import_template_def
  unknown_template_def pattern_dict_def single_quote_def double_quote_def backslash_def
  selector_escape_def js_escape_def templates_get_def generate_with_def
  generate_eslint_config_object_def

text \<open>
  Claim C3 (the message embeds the term with the broader escaping of backslash and both
  quotes, the selector with the escaping of the single quote only). The code computes
  \<open>js_escaped_term\<close> and does not use it: the template receives the selector-escaped
  term alone, so a double quote (or a backslash) of the term reaches the message
  unescaped. For the term \<open>a"b\<close> the message holds \<open>a"b\<close>, where the broader escaping
  gives \<open>a\"b\<close>.
\<close>

theorem generate_message_term_not_js_escaped:
  "generate_eslint_config_object cap (PStr (''a'' @ double_quote @ ''b'')) (PStr ''Literal'') ''r'' =
     ([], Inr (pattern_dict
        (''Literal[value='' @ single_quote @ ''a'' @ double_quote @ ''b'' @ single_quote @ '']'')
        (''Usage of literal '' @ single_quote @ ''a'' @ double_quote @ ''b'' @ single_quote @
         '' is restricted by rule: r''))) \<and>
   js_escape (''a'' @ double_quote @ ''b'') = ''a'' @ backslash @ double_quote @ ''b'' \<and>
   selector_escape (''a'' @ double_quote @ ''b'') = ''a'' @ double_quote @ ''b''"
  by (simp add: template_eval)

text \<open>
  Claim C8: for strings \<open>term\<close>, \<open>context\<close> and \<open>rule_text\<close>, a context that is none
  of the six recognized tags is rendered with the \<open>Unknown\<close> template; rendering
  never raises; and for any table of templates that has the entry \<open>Unknown\<close>, rendering
  never raises either, and a template that raises yields \<open>None\<close> (with a message)
  rather than the exception.
\<close>

theorem generate_fallback_never_raises:
  "(context \<notin> set recognized_contexts \<longrightarrow>
      generate_eslint_config_object cap (PStr term) (PStr context) rule_text =
        ([], unknown_template (selector_escape term) (js_escape rule_text))) \<and>
   (\<exists>l cfg. generate_eslint_config_object cap (PStr term) (PStr context) rule_text = (l, Inr cfg)) \<and>
   (map_of templates ''Unknown'' = Some u \<longrightarrow>
      (\<exists>l v. generate_with templates (PStr term) (PStr context) rule_text = (l, Inr v)) \<and>
      ((case map_of templates context of None \<Rightarrow> u | Some f \<Rightarrow> f)
          (selector_escape term) (js_escape rule_text) = Inl e \<longrightarrow>
       generate_with templates (PStr term) (PStr context) rule_text =
         ([ErrorApplyingTemplate (PStr term) (PStr context) rule_text e], Inr PNone)))"
proof (intro conjI impI)
  assume "context \<notin> set recognized_contexts"
  then show "generate_eslint_config_object cap (PStr term) (PStr context) rule_text =
        ([], unknown_template (selector_escape term) (js_escape rule_text))"
    by (simp add: generate_strings KEYWORD_TEMPLATES_unrecognized)
next
  show "\<exists>l cfg. generate_eslint_config_object cap (PStr term) (PStr context) rule_text = (l, Inr cfg)"
    using KEYWORD_TEMPLATES_total [of cap "context" "selector_escape term" "js_escape rule_text"]
    by (auto simp: generate_strings)
next
  assume u: "map_of templates ''Unknown'' = Some u"
  show "\<exists>l v. generate_with templates (PStr term) (PStr context) rule_text = (l, Inr v)"
    by (simp add: generate_with_strings templates_get_string [OF u] split: sum.splits)
next
  assume u: "map_of templates ''Unknown'' = Some u"
    and "(case map_of templates context of None \<Rightarrow> u | Some f \<Rightarrow> f)
          (selector_escape term) (js_escape rule_text) = Inl e"
  then show "generate_with templates (PStr term) (PStr context) rule_text =
         ([ErrorApplyingTemplate (PStr term) (PStr context) rule_text e], Inr PNone)"
    by (simp add: generate_with_strings templates_get_string [OF u])
qed

theorem generate_fallback_never_raises_witness:
  "''Block'' \<notin> set recognized_contexts \<and>
   generate_eslint_config_object ascii_only (PStr ''eval'') (PStr ''Block'') ''No eval'' =
     ([], Inr (pattern_dict
        ('':matches(Identifier[name='' @ single_quote @ ''eval'' @ single_quote @
         ''], Literal[value='' @ single_quote @ ''eval'' @ single_quote @ ''])'')
        (''Usage of '' @ single_quote @ ''eval'' @ single_quote @
         '' is restricted by rule: No eval (context unknown)''))) \<and>
   map_of [(''Unknown'', failing_template)] ''Unknown'' = Some failing_template \<and>
   (case map_of [(''Unknown'', failing_template)] ''Block'' of
      None \<Rightarrow> failing_template | Some f \<Rightarrow> f)
     (selector_escape ''eval'') (js_escape ''No eval'') = Inl TypeError \<and>
   generate_with [(''Unknown'', failing_template)] (PStr ''eval'') (PStr ''Block'') ''No eval'' =
     ([ErrorApplyingTemplate (PStr ''eval'') (PStr ''Block'') ''No eval'' TypeError], Inr PNone)"
proof -
  have a: "''Block'' \<notin> set recognized_contexts"
    by (simp add: recognized_contexts_def)
  have b: "map_of [(''Unknown'', failing_template)] ''Unknown'' = Some failing_template"
    by simp
  have c: "(case map_of [(''Unknown'', failing_template)] ''Block'' of
      None \<Rightarrow> failing_template | Some f \<Rightarrow> f)
     (selector_escape ''eval'') (js_escape ''No eval'') = Inl TypeError"
    by (simp add: failing_template_def)
  have d: "unknown_template (selector_escape ''eval'') (js_escape ''No eval'') =
     Inr (pattern_dict
        ('':matches(Identifier[name='' @ single_quote @ ''eval'' @ single_quote @
         ''], Literal[value='' @ single_quote @ ''eval'' @ single_quote @ ''])'')
        (''Usage of '' @ single_quote @ ''eval'' @ single_quote @
         '' is restricted by rule: No eval (context unknown)''))"
    by (simp add: template_eval)
  from generate_fallback_never_raises
    [of "''Block''" ascii_only "''eval''" "''No eval''" "[(''Unknown'', failing_template)]"
      failing_template TypeError] a b c d
  show ?thesis by simp
qed

section \<open>Properties of the refine and extract stages\<close>

lemma parse_response_answer:
  "parse_response loads (Inr \<lparr>choices = c # cs\<rparr>) = json_loads loads (content (message c))"
  by (simp add: parse_response_def)

text \<open>
  \<open>llm_refine_rule\<close> always returns.
\<close>

lemma llm_refine_rule_returns: "\<exists>r. snd (llm_refine_rule loads call rule_text) = Inr r"
  by (simp add: llm_refine_rule_def split: sum.splits)

text \<open>
  Claim C5: for every rule text and every answer that decodes to a dictionary, a
  \<open>passed_through\<close> outcome with an empty list (any false value) returns the list of
  the rule text alone; a \<open>translated\<close> outcome with an empty list is demoted to
  \<open>untranslatable\<close> (the list stays as it is, empty); and an \<open>untranslatable\<close> outcome
  (also the default when the key is missing) returns the empty list whatever list the
  model returned.
\<close>

theorem llm_refine_rule_normalization:
  assumes "json_loads loads (content (message c)) = Inr (PDict d)"
  shows
    "(dict_get d ''outcome'' (PStr ''untranslatable'') = PStr ''passed_through'' \<and>
      \<not> truthy (dict_get d ''refined_rules'' (PList [])) \<longrightarrow>
        snd (llm_refine_rule loads (Inr \<lparr>choices = c # cs\<rparr>) rule_text) =
          Inr (PStr ''passed_through'', PList [PStr rule_text])) \<and>
     (dict_get d ''outcome'' (PStr ''untranslatable'') = PStr ''translated'' \<and>
      \<not> truthy (dict_get d ''refined_rules'' (PList [])) \<longrightarrow>
        snd (llm_refine_rule loads (Inr \<lparr>choices = c # cs\<rparr>) rule_text) =
          Inr (PStr ''untranslatable'', dict_get d ''refined_rules'' (PList []))) \<and>
     (dict_get d ''outcome'' (PStr ''untranslatable'') = PStr ''untranslatable'' \<longrightarrow>
        snd (llm_refine_rule loads (Inr \<lparr>choices = c # cs\<rparr>) rule_text) =
          Inr (PStr ''untranslatable'', PList []))"
  using assms
  by (simp add: llm_refine_rule_def refine_try_def parse_response_answer)

theorem llm_refine_rule_normalization_witness:
  "snd (llm_refine_rule sample_loads (answer ''outcome: passed_through, refined_rules: []'')
      ''No eval'') = Inr (PStr ''passed_through'', PList [PStr ''No eval'']) \<and>
   snd (llm_refine_rule sample_loads (answer ''outcome: translated, refined_rules: []'')
      ''No eval'') = Inr (PStr ''untranslatable'', PList []) \<and>
   snd (llm_refine_rule sample_loads (answer ''outcome: untranslatable, refined_rules: [x]'')
      ''No eval'') = Inr (PStr ''untranslatable'', PList [])"
proof -
  let ?c = "\<lambda>s. \<lparr>message = \<lparr>content = Some s\<rparr>\<rparr>"
  have p: "json_loads sample_loads (content (message (?c ''outcome: passed_through, refined_rules: []''))) =
      Inr (PDict [(''outcome'', PStr ''passed_through''), (''refined_rules'', PList [])])"
    by (simp add: json_loads_def sample_loads_def)
  have t: "json_loads sample_loads (content (message (?c ''outcome: translated, refined_rules: []''))) =
      Inr (PDict [(''outcome'', PStr ''translated''), (''refined_rules'', PList [])])"
    by (simp add: json_loads_def sample_loads_def)
  have u: "json_loads sample_loads (content (message (?c ''outcome: untranslatable, refined_rules: [x]''))) =
      Inr (PDict [(''outcome'', PStr ''untranslatable''), (''refined_rules'', PList [PStr ''x''])])"
    by (simp add: json_loads_def sample_loads_def)
  from llm_refine_rule_normalization [OF p, of "[]" "''No eval''"]
    llm_refine_rule_normalization [OF t, of "[]" "''No eval''"]
    llm_refine_rule_normalization [OF u, of "[]" "''No eval''"]
  show ?thesis
    by (simp add: answer_def dict_get_def)
qed

text \<open>
  The two ways in which the first handler of \<open>llm_extract_flags\<close> raises itself: the
  call raised one of the three exception classes of the handler, or the completion has
  no choice.
\<close>

lemma llm_extract_flags_handler_raises:
  "e \<in> set parse_errors \<Longrightarrow> llm_extract_flags loads (Inl e) rule_text = ([], Inl UnboundLocalError)"
  "llm_extract_flags loads (Inr \<lparr>choices = []\<rparr>) rule_text = ([], Inl IndexError)"
  by (simp_all add: llm_extract_flags_def extract_try_def parse_response_def parse_errors_def)




section \<open>Properties of the orchestrator\<close>

lemma collect_results_eq:
  "collect_results futures acc =
     (concat (map (\<lambda>f. fst f @ (case snd f of Inr r \<Rightarrow> []
                                  | Inl exc \<Rightarrow> [ErrorRetrievingResult exc, TracebackOf exc])) futures),
      acc @ concat (map (\<lambda>f. case snd f of Inr r \<Rightarrow> r | Inl exc \<Rightarrow> []) futures))"
  by (induction futures acc rule: collect_results.induct) simp_all

text \<open>
  The orchestrator always returns, and its result is the concatenation, in completion
  order, of what the tasks contribute.
\<close>

lemma run_parallel_result:
  "snd (run_parallel_rule_processing cap loads tasks) = Inr (concat (map (task_pairs cap loads) tasks))"
proof -
  have "(\<lambda>f. case snd f of Inr r \<Rightarrow> r | Inl exc \<Rightarrow> []) \<circ>
          (\<lambda>(rule_text, call). process_refined_rule cap loads call rule_text) =
        task_pairs cap loads"
    by (auto simp: task_pairs_def fun_eq_iff)
  then show ?thesis
    by (simp add: run_parallel_rule_processing_def collect_results_eq)
qed

lemma run_parallel_log:
  "task_failure cap loads t = Some exc \<Longrightarrow> t \<in> set tasks \<Longrightarrow>
   ErrorRetrievingResult exc \<in> set (fst (run_parallel_rule_processing cap loads tasks)) \<and>
   TracebackOf exc \<in> set (fst (run_parallel_rule_processing cap loads tasks))"
  by (cases t) (force simp: run_parallel_rule_processing_def collect_results_eq task_failure_def
      split: sum.splits)

lemmas process_eval =
  process_refined_rule_def llm_extract_flags_def extract_try_def parse_response_def
  json_loads_def sample_loads_def answer_def parse_errors_def dict_get_def

text \<open>
  Claim C7 as stated (the failure is logged together with the source rule text of the
  failing task) fails: the two messages of the join carry the exception only. Here the
  flags of the rule \<open>No eval\<close> are strings, the task raises \<open>AttributeError\<close>, and no
  message of the run carries a rule text.
\<close>

theorem run_parallel_log_without_rule_text:
  "run_parallel_rule_processing ascii_only sample_loads [(''No eval'', answer ''flags: [eval]'')] =
     ([ProcessingFinalRules 1, ExtractingFlags,
       ErrorRetrievingResult AttributeError, TracebackOf AttributeError], Inr []) \<and>
   map event_rule_text
     [ProcessingFinalRules 1, ExtractingFlags,
      ErrorRetrievingResult AttributeError, TracebackOf AttributeError] =
     [None, None, None, None]"
  by (simp add: run_parallel_rule_processing_def process_eval)

text \<open>
  Claim C7, amended: for every batch and every completion order, when a task raises, the
  orchestrator returns all pairs of the other tasks, in completion order, does not raise
  itself, and writes the exception and its traceback (not the rule text of the task).
\<close>

theorem run_parallel_fault_isolation:
  assumes "task_failure cap loads t = Some exc"
  shows "snd (run_parallel_rule_processing cap loads (before @ t # after)) =
           Inr (concat (map (task_pairs cap loads) (before @ after))) \<and>
         ErrorRetrievingResult exc \<in> set (fst (run_parallel_rule_processing cap loads (before @ t # after))) \<and>
         TracebackOf exc \<in> set (fst (run_parallel_rule_processing cap loads (before @ t # after)))"
proof -
  have "task_pairs cap loads t = []"
    using assms by (simp add: task_pairs_def task_failure_def split: sum.splits)
  then show ?thesis
    using run_parallel_log [OF assms, of "before @ t # after"]
    by (simp add: run_parallel_result)
qed

theorem run_parallel_fault_isolation_witness:
  "task_failure ascii_only sample_loads (''No eval'', answer ''flags: [eval]'') = Some AttributeError \<and>
   snd (run_parallel_rule_processing ascii_only sample_loads
     [(''No debugger'', answer ''flags: [{term: debugger, context: Keyword, severity: error}]''),
      (''No eval'', answer ''flags: [eval]''),
      (''Never debug'', answer ''flags: [{term: debugger, context: Keyword, severity: error}]'')]) =
     Inr [(PStr ''error'', pattern_dict ''DebuggerStatement''
            (''Usage of keyword '' @ single_quote @ ''debugger'' @ single_quote @
             '' is restricted by rule: No debugger'')),
          (PStr ''error'', pattern_dict ''DebuggerStatement''
            (''Usage of keyword '' @ single_quote @ ''debugger'' @ single_quote @
             '' is restricted by rule: Never debug''))] \<and>
   ErrorRetrievingResult AttributeError \<in> set (fst (run_parallel_rule_processing ascii_only sample_loads
     [(''No debugger'', answer ''flags: [{term: debugger, context: Keyword, severity: error}]''),
      (''No eval'', answer ''flags: [eval]''),
      (''Never debug'', answer ''flags: [{term: debugger, context: Keyword, severity: error}]'')])) \<and>
   TracebackOf AttributeError \<in> set (fst (run_parallel_rule_processing ascii_only sample_loads
     [(''No debugger'', answer ''flags: [{term: debugger, context: Keyword, severity: error}]''),
      (''No eval'', answer ''flags: [eval]''),
      (''Never debug'', answer ''flags: [{term: debugger, context: Keyword, severity: error}]'')]))"
proof -
  let ?good1 = "(''No debugger'', answer ''flags: [{term: debugger, context: Keyword, severity: error}]'')"
  let ?good2 = "(''Never debug'', answer ''flags: [{term: debugger, context: Keyword, severity: error}]'')"
  let ?bad = "(''No eval'', answer ''flags: [eval]'')"
  have f: "task_failure ascii_only sample_loads ?bad = Some AttributeError"
    by (simp add: task_failure_def process_eval)
  have g1: "task_pairs ascii_only sample_loads ?good1 =
     [(PStr ''error'', pattern_dict ''DebuggerStatement''
            (''Usage of keyword '' @ single_quote @ ''debugger'' @ single_quote @
             '' is restricted by rule: No debugger''))]"
    by (simp add: task_pairs_def process_eval template_eval capitalize_def is_ascii_def upper_char_def lower_char_def
        ascii_lowercase_def ascii_uppercase_def)
  have g2: "task_pairs ascii_only sample_loads ?good2 =
     [(PStr ''error'', pattern_dict ''DebuggerStatement''
            (''Usage of keyword '' @ single_quote @ ''debugger'' @ single_quote @
             '' is restricted by rule: Never debug''))]"
    by (simp add: task_pairs_def process_eval template_eval capitalize_def is_ascii_def upper_char_def lower_char_def
        ascii_lowercase_def ascii_uppercase_def)
  from run_parallel_fault_isolation [OF f, of "[?good1]" "[?good2]"] f g1 g2
  show ?thesis by simp
qed

section \<open>Properties of the aggregator\<close>

subsection \<open>One iteration\<close>

lemma agg_step_non_dict: "\<not> isinstance_dict c \<Longrightarrow> agg_step sev c st = ([], Inl AttributeError)"
  by (cases c) (simp_all add: agg_step_def)

lemma agg_step_kept:
  "cfg_key c = Some k \<Longrightarrow> k \<notin> seen_selectors st \<Longrightarrow> agg_step sev c st = ([], Inr (keep sev c st))"
  by (cases c) (auto simp: agg_step_def cfg_key_def selector_of_def keep_def split: sum.splits if_splits)

lemma agg_step_seen:
  "cfg_key c = Some k \<Longrightarrow> k \<in> seen_selectors st \<Longrightarrow> agg_step sev c st = ([], Inr st)"
  by (cases c) (auto simp: agg_step_def cfg_key_def selector_of_def split: sum.splits if_splits)

lemma agg_step_falsy:
  "isinstance_dict c \<Longrightarrow> \<not> truthy (selector_of c) \<Longrightarrow> agg_step sev c st = ([], Inr st)"
  by (cases c) (auto simp: agg_step_def selector_of_def split: sum.splits if_splits)

lemma agg_step_unhashable:
  "isinstance_dict c \<Longrightarrow> truthy (selector_of c) \<Longrightarrow> hash_key (selector_of c) = Inl e \<Longrightarrow> agg_step sev c st = ([], Inl e)"
  by (cases c) (auto simp: agg_step_def selector_of_def split: sum.splits if_splits)

lemma agg_step_Inr_cases:
  assumes "snd (agg_step sev c st) = Inr st'"
  shows "(st' = st \<and> (cfg_key c = None \<or> the (cfg_key c) \<in> seen_selectors st)) \<or>
         (\<exists>k. cfg_key c = Some k \<and> k \<notin> seen_selectors st \<and> st' = keep sev c st)"
  using assms
  by (cases c) (auto simp: agg_step_def cfg_key_def selector_of_def keep_def split: sum.splits if_splits)

subsection \<open>The invariant of the loop\<close>

lemma agg_inv_init: "agg_inv agg_init"
  by (simp add: agg_inv_def agg_init_def)

lemma agg_inv_keep:
  assumes "agg_inv st" "cfg_key c = Some k" "k \<notin> seen_selectors st"
  shows "agg_inv (keep sev c st)"
proof -
  have "cfg_key c \<notin> set (map cfg_key (combined_syntax_configs st))"
  proof
    assume "cfg_key c \<in> set (map cfg_key (combined_syntax_configs st))"
    then obtain c' where "c' \<in> set (combined_syntax_configs st)" "cfg_key c' = Some k"
      using assms(2) by auto
    then have "k \<in> seen_selectors st"
      using assms(1) by (force simp: agg_inv_def)
    then show False using assms(3) by simp
  qed
  then show ?thesis
    using assms by (auto simp: agg_inv_def keep_def)
qed

lemma agg_step_inv:
  "agg_inv st \<Longrightarrow> snd (agg_step sev c st) = Inr st' \<Longrightarrow> agg_inv st'"
  using agg_step_Inr_cases [of sev c st st'] agg_inv_keep by blast

lemma agg_loop_Cons:
  "snd (agg_loop ((sev, c) # rest) st) = Inr st'' \<longleftrightarrow>
   (\<exists>st'. snd (agg_step sev c st) = Inr st' \<and> snd (agg_loop rest st') = Inr st'')"
  by (auto split: prod.splits sum.splits)

lemma agg_loop_inv:
  "agg_inv st \<Longrightarrow> snd (agg_loop xs st) = Inr st' \<Longrightarrow> agg_inv st'"
proof (induction xs arbitrary: st)
  case Nil
  then show ?case by simp
next
  case (Cons x xs)
  obtain sev c where x: "x = (sev, c)" by (cases x)
  from Cons.prems(2) obtain st1 where
    s1: "snd (agg_step sev c st) = Inr st1" and s2: "snd (agg_loop xs st1) = Inr st'"
    unfolding x agg_loop_Cons by blast
  from agg_step_inv [OF Cons.prems(1) s1] Cons.IH s2 show ?case by blast
qed

lemma agg_loop_rewrap:
  assumes "list_all (\<lambda>c. cfg_key c \<noteq> None) cs" "distinct (map cfg_key cs)"
    "\<forall>c\<in>set cs. the (cfg_key c) \<notin> seen_selectors st"
  shows "agg_loop (map (Pair (PStr h)) cs) st =
     ([], Inr \<lparr>combined_syntax_configs = combined_syntax_configs st @ cs,
        highest_severity = (if h = ''error'' \<and> cs \<noteq> [] then ''error'' else highest_severity st),
        seen_selectors = seen_selectors st \<union> set (map (\<lambda>c. the (cfg_key c)) cs)\<rparr>)"
  using assms
proof (induction cs arbitrary: st)
  case Nil
  then show ?case by simp
next
  case (Cons c cs)
  from Cons.prems(1) obtain k where k: "cfg_key c = Some k" by auto
  from Cons.prems(3) k have unseen: "k \<notin> seen_selectors st" by simp
  have step: "agg_step (PStr h) c st = ([], Inr (keep (PStr h) c st))"
    by (rule agg_step_kept [OF k unseen])
  have rest: "\<forall>c'\<in>set cs. the (cfg_key c') \<notin> seen_selectors (keep (PStr h) c st)"
  proof
    fix c' assume c': "c' \<in> set cs"
    from Cons.prems(1) c' obtain k' where k': "cfg_key c' = Some k'"
      by (auto simp: list_all_iff)
    from Cons.prems(2) c' k k' have "k' \<noteq> k" by force
    moreover from Cons.prems(3) c' k' have "k' \<notin> seen_selectors st" by force
    ultimately show "the (cfg_key c') \<notin> seen_selectors (keep (PStr h) c st)"
      by (simp add: keep_def k k')
  qed
  from Cons.prems have "list_all (\<lambda>c. cfg_key c \<noteq> None) cs" "distinct (map cfg_key cs)" by simp_all
  from Cons.IH [OF this rest] show ?case
    by (simp add: step keep_def k)
qed

lemma agg_loop_no_selector:
  "list_all (\<lambda>p. isinstance_dict (snd p) \<and> \<not> truthy (selector_of (snd p))) xs \<Longrightarrow>
   agg_loop xs st = ([], Inr st)"
  by (induction xs arbitrary: st) (auto simp: agg_step_falsy)

lemma patterns_of_final: "patterns_of (fst (agg_final st)) = combined_syntax_configs st"
  by (simp add: agg_final_def patterns_of_def)

lemma aggregate_Inr:
  "snd (aggregate_eslint_configs xs) = Inr out \<longleftrightarrow>
   (\<exists>st. snd (agg_loop xs agg_init) = Inr st \<and> out = agg_final st)"
  by (auto simp: aggregate_eslint_configs_def split: prod.splits sum.splits)

lemma agg_final_cong:
  "combined_syntax_configs st = combined_syntax_configs st' \<Longrightarrow>
   highest_severity st = highest_severity st' \<Longrightarrow> agg_final st = agg_final st'"
  by (simp add: agg_final_def)

lemma pattern_config_key:
  "pattern_config c \<Longrightarrow>
   isinstance_dict c \<and> selector_of c = PStr (pattern c) \<and>
   cfg_key c = (if pattern c = [] then None else Some (KStr (pattern c)))"
  by (auto simp: pattern_config_def pattern_def cfg_key_def selector_of_def dict_get_def
      split: pyval.splits option.splits)

lemma agg_loop_dedup:
  "list_all pattern_config (map snd xs) \<Longrightarrow> seen_selectors st = KStr ` S \<Longrightarrow>
   \<exists>st'. snd (agg_loop xs st) = Inr st' \<and>
     combined_syntax_configs st' =
       combined_syntax_configs st @ dedup_by_nonempty_pattern S (map snd xs)"
proof (induction xs arbitrary: st S)
  case Nil
  then show ?case by simp
next
  case (Cons x xs)
  obtain sev c where x: "x = (sev, c)" by (cases x)
  from Cons.prems(1) have pc: "pattern_config c" and rest: "list_all pattern_config (map snd xs)"
    by (simp_all add: x)
  note key = pattern_config_key [OF pc]
  consider (empty) "pattern c = []" | (seen) "pattern c \<noteq> []" "pattern c \<in> S"
    | (new) "pattern c \<noteq> []" "pattern c \<notin> S" by blast
  then show ?case
  proof cases
    case empty
    then have "agg_step sev c st = ([], Inr st)" using key by (simp add: agg_step_falsy)
    with Cons.IH [OF rest Cons.prems(2)] empty show ?thesis
      by (auto simp: x split: prod.splits)
  next
    case seen
    then have "agg_step sev c st = ([], Inr st)"
      using key Cons.prems(2) by (intro agg_step_seen [of c "KStr (pattern c)"]) auto
    with Cons.IH [OF rest Cons.prems(2)] seen show ?thesis
      by (auto simp: x split: prod.splits)
  next
    case new
    then have step: "agg_step sev c st = ([], Inr (keep sev c st))"
      using key Cons.prems(2) by (intro agg_step_kept [of c "KStr (pattern c)"]) auto
    have "seen_selectors (keep sev c st) = KStr ` insert (pattern c) S"
      using key new Cons.prems(2) by (simp add: keep_def)
    from Cons.IH [OF rest this] new step show ?thesis
      by (auto simp: x keep_def split: prod.splits)
  qed
qed

lemmas agg_eval =
  aggregate_eslint_configs_def agg_step_def agg_init_def agg_final_def dict_get_def

subsection \<open>Overall severity\<close>

text \<open>
  Whenever the aggregator returns \<open>error\<close>, some input pair has severity \<open>error\<close>; so an
  input whose pairs all have another severity yields \<open>warn\<close>.
\<close>

lemma agg_loop_error_source:
  "snd (agg_loop xs st) = Inr st' \<Longrightarrow> highest_severity st' = ''error'' \<Longrightarrow>
   highest_severity st = ''error'' \<or> PStr ''error'' \<in> fst ` set xs"
proof (induction xs arbitrary: st)
  case Nil
  then show ?case by simp
next
  case (Cons x xs)
  obtain sev c where x: "x = (sev, c)" by (cases x)
  from Cons.prems(1) obtain st1 where
    s1: "snd (agg_step sev c st) = Inr st1" and s2: "snd (agg_loop xs st1) = Inr st'"
    unfolding x agg_loop_Cons by blast
  from Cons.IH [OF s2 Cons.prems(2)] have "highest_severity st1 = ''error'' \<or> PStr ''error'' \<in> fst ` set xs" .
  moreover have "highest_severity st1 = ''error'' \<Longrightarrow> highest_severity st = ''error'' \<or> sev = PStr ''error''"
    using agg_step_Inr_cases [OF s1] by (auto simp: keep_def split: if_splits)
  ultimately show ?case by (auto simp: x)
qed

lemma aggregate_error_has_source:
  assumes "snd (aggregate_eslint_configs xs) = Inr (rules, sev, n)"
  shows "sev = ''warn'' \<or> sev = ''error'' \<and> PStr ''error'' \<in> fst ` set xs"
proof -
  from assms obtain st where loop: "snd (agg_loop xs agg_init) = Inr st"
    and out: "(rules, sev, n) = agg_final st"
    unfolding aggregate_Inr by blast
  have sev: "sev = highest_severity st"
    using out by (simp add: agg_final_def split: if_splits)
  have "agg_inv st" by (rule agg_loop_inv [OF agg_inv_init loop])
  then have "sev = ''warn'' \<or> sev = ''error''"
    by (auto simp: agg_inv_def sev)
  moreover have "PStr ''error'' \<in> fst ` set xs" if "sev = ''error''"
    using agg_loop_error_source [OF loop] that by (simp add: sev agg_init_def)
  ultimately show ?thesis by blast
qed

text \<open>
  When the configurations of the input have true, hashable and pairwise different
  selectors, every pair is kept, and the overall severity is \<open>error\<close> exactly when some
  input pair has severity \<open>error\<close>.
\<close>

lemma agg_loop_all_kept:
  assumes "list_all (\<lambda>c. cfg_key c \<noteq> None) (map snd xs)" "distinct (map (\<lambda>p. cfg_key (snd p)) xs)"
    "\<forall>c\<in>set (map snd xs). the (cfg_key c) \<notin> seen_selectors st"
  shows "\<exists>st'. snd (agg_loop xs st) = Inr st' \<and>
     combined_syntax_configs st' = combined_syntax_configs st @ map snd xs \<and>
     (highest_severity st' = ''error'' \<longleftrightarrow>
        highest_severity st = ''error'' \<or> PStr ''error'' \<in> fst ` set xs)"
  using assms
proof (induction xs arbitrary: st)
  case Nil
  then show ?case by simp
next
  case (Cons x xs)
  obtain sev c where x: "x = (sev, c)" by (cases x)
  from Cons.prems(1) obtain k where k: "cfg_key c = Some k" by (auto simp: x)
  from Cons.prems(3) k have unseen: "k \<notin> seen_selectors st" by (simp add: x)
  have step: "agg_step sev c st = ([], Inr (keep sev c st))"
    by (rule agg_step_kept [OF k unseen])
  have rest: "\<forall>c'\<in>set (map snd xs). the (cfg_key c') \<notin> seen_selectors (keep sev c st)"
  proof
    fix c' assume c': "c' \<in> set (map snd xs)"
    from Cons.prems(1) c' obtain k' where k': "cfg_key c' = Some k'"
      by (auto simp: list_all_iff)
    from Cons.prems(2) c' k k' have "k' \<noteq> k" by (force simp: x)
    moreover from Cons.prems(3) c' k' have "k' \<notin> seen_selectors st" by force
    ultimately show "the (cfg_key c') \<notin> seen_selectors (keep sev c st)"
      by (simp add: keep_def k k')
  qed
  from Cons.prems have "list_all (\<lambda>c. cfg_key c \<noteq> None) (map snd xs)"
    "distinct (map (\<lambda>p. cfg_key (snd p)) xs)" by simp_all
  from Cons.IH [OF this rest] obtain st' where
    "snd (agg_loop xs (keep sev c st)) = Inr st'"
    "combined_syntax_configs st' = combined_syntax_configs (keep sev c st) @ map snd xs"
    "highest_severity st' = ''error'' \<longleftrightarrow>
        highest_severity (keep sev c st) = ''error'' \<or> PStr ''error'' \<in> fst ` set xs"
    by blast
  then show ?case
    by (auto simp: x step keep_def split: prod.splits)
qed

lemma aggregate_severity_distinct_patterns:
  assumes "list_all (\<lambda>c. cfg_key c \<noteq> None) (map snd xs)" "distinct (map (\<lambda>p. cfg_key (snd p)) xs)"
  shows "\<exists>rules n. snd (aggregate_eslint_configs xs) =
     Inr (rules, if PStr ''error'' \<in> fst ` set xs then ''error'' else ''warn'', n)"
proof -
  from agg_loop_all_kept [OF assms, of agg_init] obtain st where
    loop: "snd (agg_loop xs agg_init) = Inr st" and
    sev: "highest_severity st = ''error'' \<longleftrightarrow> PStr ''error'' \<in> fst ` set xs"
    by (auto simp: agg_init_def)
  have "agg_inv st" by (rule agg_loop_inv [OF agg_inv_init loop])
  then have "highest_severity st = ''warn'' \<or> highest_severity st = ''error''"
    by (auto simp: agg_inv_def)
  with sev have "highest_severity st = (if PStr ''error'' \<in> fst ` set xs then ''error'' else ''warn'')"
    by auto
  moreover have "snd (aggregate_eslint_configs xs) = Inr (agg_final st)"
    unfolding aggregate_Inr using loop by blast
  ultimately show ?thesis
    by (auto simp: agg_final_def)
qed

text \<open>
  Claim C1 (overall severity is \<open>error\<close> if and only if some input pair has severity
  \<open>error\<close>). The code raises the severity inside the branch that appends a configuration,
  so the severity of a pair that is skipped as a duplicate is lost: two flags with the same
  selector, the first of severity \<open>warn\<close> and the second of severity \<open>error\<close>, are
  aggregated to \<open>warn\<close>, although the comment in the code says that the overall severity
  is raised if any flag is an error.
\<close>

theorem aggregate_severity_lost_on_duplicate:
  "aggregate_eslint_configs
     [(PStr ''warn'', PDict [(''selector'', PStr ''DebuggerStatement''), (''message'', PStr ''avoid'')]),
      (PStr ''error'', PDict [(''selector'', PStr ''DebuggerStatement''), (''message'', PStr ''never'')])] =
   ([AggregatingConfigs 2],
    Inr (PDict [(''no-restricted-syntax'',
           PList [PStr ''warn'',
             PDict [(''selector'', PStr ''DebuggerStatement''), (''message'', PStr ''avoid'')]])],
         ''warn'', 1))"
  by (simp add: agg_eval)

subsection \<open>Elements that are not dictionaries\<close>

text \<open>
  Claim C2 (an element whose configuration is not a well-formed PatternConfig is skipped
  with a warning and the aggregator returns normally). The selector is read with
  \<open>config.get\<close> before \<open>isinstance(config, dict)\<close> is tested, so a configuration that is
  a string raises \<open>AttributeError\<close> and the warning of the \<open>elif\<close> branch is never
  written.
\<close>

theorem aggregate_non_dict_raises:
  "aggregate_eslint_configs [(PStr ''warn'', PStr ''not a config'')] =
   ([AggregatingConfigs 1], Inl AttributeError)"
  by (simp add: agg_eval)

subsection \<open>Deduplication\<close>

text \<open>
  The deduplicated sequence is a subsequence of the input, its patterns are pairwise
  different, non-empty and unseen, and each of its elements is the first configuration of
  the input with its pattern.
\<close>

lemma dedup_subseq: "subseq (dedup_by_nonempty_pattern S cs) cs"
  by (induction cs arbitrary: S) auto

lemma dedup_patterns:
  "set (map pattern (dedup_by_nonempty_pattern S cs)) = set (map pattern cs) - S - {[]}"
  by (induction cs arbitrary: S) auto

lemma dedup_pattern_unseen:
  "c \<in> set (dedup_by_nonempty_pattern S cs) \<Longrightarrow> pattern c \<notin> S \<and> pattern c \<noteq> []"
proof -
  assume "c \<in> set (dedup_by_nonempty_pattern S cs)"
  then have "pattern c \<in> set (map pattern (dedup_by_nonempty_pattern S cs))" by simp
  then show ?thesis unfolding dedup_patterns by simp
qed

lemma dedup_distinct: "distinct (map pattern (dedup_by_nonempty_pattern S cs))"
  by (induction cs arbitrary: S) (auto dest: dedup_pattern_unseen)

lemma dedup_first_seen:
  "c \<in> set (dedup_by_nonempty_pattern S cs) \<Longrightarrow>
   find (\<lambda>c'. pattern c' = pattern c) cs = Some c"
proof (induction cs arbitrary: S)
  case Nil
  then show ?case by simp
next
  case (Cons a cs)
  show ?case
  proof (cases "pattern a = [] \<or> pattern a \<in> S")
    case True
    with Cons.prems have in_rest: "c \<in> set (dedup_by_nonempty_pattern S cs)" by simp
    then have "pattern c \<in> set (map pattern (dedup_by_nonempty_pattern S cs))" by simp
    then have "pattern c \<noteq> [] \<and> pattern c \<notin> S" unfolding dedup_patterns by simp
    with True have "pattern a \<noteq> pattern c" by auto
    with Cons.IH [OF in_rest] show ?thesis by simp
  next
    case False
    with Cons.prems have "c = a \<or> c \<in> set (dedup_by_nonempty_pattern (insert (pattern a) S) cs)"
      by auto
    then show ?thesis
    proof
      assume "c = a" then show ?thesis by simp
    next
      assume in_rest: "c \<in> set (dedup_by_nonempty_pattern (insert (pattern a) S) cs)"
      then have "pattern c \<in> set (map pattern (dedup_by_nonempty_pattern (insert (pattern a) S) cs))"
        by simp
      then have "pattern a \<noteq> pattern c" unfolding dedup_patterns by auto
      with Cons.IH [OF in_rest] show ?thesis by simp
    qed
  qed
qed

text \<open>
  Claim C4 as stated (every pair with an unseen pattern is appended) fails for a
  PatternConfig whose pattern is the empty string: the specification's deduplication keeps
  it, the code skips it.
\<close>

theorem aggregate_dedup_counterexample:
  "snd (aggregate_eslint_configs
      [(PStr ''warn'', PDict [(''selector'', PStr []), (''message'', PStr ''m'')])]) =
     Inr (PDict [], ''warn'', 0) \<and>
   patterns_of (PDict []) = [] \<and>
   dedup_by_pattern {} (map snd
      [(PStr ''warn'', PDict [(''selector'', PStr []), (''message'', PStr ''m'')])]) =
     [PDict [(''selector'', PStr []), (''message'', PStr ''m'')]]"
  by (simp add: agg_eval patterns_of_def pattern_def)

text \<open>
  Claim C4, amended: for every list of pairs whose configurations are dictionaries with a
  string selector, the aggregator returns; the patterns of the returned rules object are
  the configurations of the input in the order received, without those whose pattern is
  empty and without those whose pattern equals the pattern of an earlier kept
  configuration (whatever their messages); and the returned count is the length of that
  sequence.
\<close>

theorem aggregate_dedup_nonempty:
  assumes "list_all pattern_config (map snd xs)"
  shows "\<exists>rules sev.
     snd (aggregate_eslint_configs xs) =
       Inr (rules, sev, length (dedup_by_nonempty_pattern {} (map snd xs))) \<and>
     patterns_of rules = dedup_by_nonempty_pattern {} (map snd xs)"
proof -
  from agg_loop_dedup [OF assms, of agg_init "{}"] obtain st where
    loop: "snd (agg_loop xs agg_init) = Inr st" and
    cs: "combined_syntax_configs st = dedup_by_nonempty_pattern {} (map snd xs)"
    by (auto simp: agg_init_def)
  have "snd (aggregate_eslint_configs xs) = Inr (agg_final st)"
    unfolding aggregate_Inr using loop by blast
  moreover have "snd (snd (agg_final st)) = length (combined_syntax_configs st)"
    by (simp add: agg_final_def)
  ultimately show ?thesis
    using patterns_of_final [of st] cs by (cases "agg_final st") auto
qed

theorem aggregate_dedup_nonempty_witness:
  "list_all pattern_config (map snd
      [(PStr ''warn'', PDict [(''selector'', PStr ''A''), (''message'', PStr ''m1'')]),
       (PStr ''error'', PDict [(''selector'', PStr ''A''), (''message'', PStr ''m2'')]),
       (PStr ''warn'', PDict [(''selector'', PStr []), (''message'', PStr ''m3'')]),
       (PStr ''warn'', PDict [(''selector'', PStr ''B''), (''message'', PStr ''m4'')])]) \<and>
   (\<exists>rules sev.
      snd (aggregate_eslint_configs
        [(PStr ''warn'', PDict [(''selector'', PStr ''A''), (''message'', PStr ''m1'')]),
         (PStr ''error'', PDict [(''selector'', PStr ''A''), (''message'', PStr ''m2'')]),
         (PStr ''warn'', PDict [(''selector'', PStr []), (''message'', PStr ''m3'')]),
         (PStr ''warn'', PDict [(''selector'', PStr ''B''), (''message'', PStr ''m4'')])]) =
        Inr (rules, sev, 2) \<and>
      patterns_of rules =
        [PDict [(''selector'', PStr ''A''), (''message'', PStr ''m1'')],
         PDict [(''selector'', PStr ''B''), (''message'', PStr ''m4'')]])"
proof -
  let ?xs = "[(PStr ''warn'', PDict [(''selector'', PStr ''A''), (''message'', PStr ''m1'')]),
       (PStr ''error'', PDict [(''selector'', PStr ''A''), (''message'', PStr ''m2'')]),
       (PStr ''warn'', PDict [(''selector'', PStr []), (''message'', PStr ''m3'')]),
       (PStr ''warn'', PDict [(''selector'', PStr ''B''), (''message'', PStr ''m4'')])]"
  have h: "list_all pattern_config (map snd ?xs)"
    by (simp add: pattern_config_def)
  have d: "dedup_by_nonempty_pattern {} (map snd ?xs) =
     [PDict [(''selector'', PStr ''A''), (''message'', PStr ''m1'')],
      PDict [(''selector'', PStr ''B''), (''message'', PStr ''m4'')]]"
    by (simp add: pattern_def)
  have l: "length [PDict [(''selector'', PStr ''A''), (''message'', PStr ''m1'')],
      PDict [(''selector'', PStr ''B''), (''message'', PStr ''m4'')]] = (2::nat)"
    by simp
  have e: "\<exists>rules sev.
      snd (aggregate_eslint_configs ?xs) = Inr (rules, sev, 2) \<and>
      patterns_of rules =
        [PDict [(''selector'', PStr ''A''), (''message'', PStr ''m1'')],
         PDict [(''selector'', PStr ''B''), (''message'', PStr ''m4'')]]"
    using aggregate_dedup_nonempty [OF h] unfolding d l .
  from h e show ?thesis by (rule conjI)
qed

subsection \<open>Idempotence\<close>

text \<open>
  Claim C9: when the aggregator returns, applying it to its own result, each kept
  configuration paired with the overall severity, returns the same rules object (the same
  sequence of patterns), the same overall severity and the same count.
\<close>

theorem aggregate_idempotent:
  assumes "snd (aggregate_eslint_configs xs) = Inr out"
  shows "snd (aggregate_eslint_configs (rewrap out)) = Inr out"
proof -
  from assms obtain st where loop: "snd (agg_loop xs agg_init) = Inr st" and out: "out = agg_final st"
    unfolding aggregate_Inr by blast
  have inv: "agg_inv st" by (rule agg_loop_inv [OF agg_inv_init loop])
  let ?cs = "combined_syntax_configs st" and ?h = "highest_severity st"
  have rw: "rewrap out = map (Pair (PStr ?h)) ?cs"
    by (simp add: rewrap_def out agg_final_def patterns_of_def)
  have "agg_loop (map (Pair (PStr ?h)) ?cs) agg_init =
     ([], Inr \<lparr>combined_syntax_configs = combined_syntax_configs agg_init @ ?cs,
        highest_severity = (if ?h = ''error'' \<and> ?cs \<noteq> [] then ''error'' else highest_severity agg_init),
        seen_selectors = seen_selectors agg_init \<union> set (map (\<lambda>c. the (cfg_key c)) ?cs)\<rparr>)"
    using inv by (intro agg_loop_rewrap) (simp_all add: agg_inv_def agg_init_def)
  moreover have "(if ?h = ''error'' \<and> ?cs \<noteq> [] then ''error'' else highest_severity agg_init) = ?h"
    using inv by (auto simp: agg_inv_def agg_init_def)
  ultimately have "snd (agg_loop (rewrap out) agg_init) =
     Inr \<lparr>combined_syntax_configs = ?cs, highest_severity = ?h,
        seen_selectors = set (map (\<lambda>c. the (cfg_key c)) ?cs)\<rparr>"
    by (simp add: rw agg_init_def)
  then show ?thesis
    unfolding aggregate_Inr out by (auto intro: agg_final_cong)
qed

theorem aggregate_idempotent_witness:
  "snd (aggregate_eslint_configs
      [(PStr ''error'', PDict [(''selector'', PStr ''A''), (''message'', PStr ''m1'')]),
       (PStr ''warn'', PDict [(''selector'', PStr ''A''), (''message'', PStr ''m2'')]),
       (PStr ''warn'', PDict [(''selector'', PStr ''B''), (''message'', PStr ''m3'')])]) =
     Inr (PDict [(''no-restricted-syntax'', PList [PStr ''error'',
            PDict [(''selector'', PStr ''A''), (''message'', PStr ''m1'')],
            PDict [(''selector'', PStr ''B''), (''message'', PStr ''m3'')]])], ''error'', 2) \<and>
   snd (aggregate_eslint_configs
      (rewrap (PDict [(''no-restricted-syntax'', PList [PStr ''error'',
            PDict [(''selector'', PStr ''A''), (''message'', PStr ''m1'')],
            PDict [(''selector'', PStr ''B''), (''message'', PStr ''m3'')]])], ''error'', 2))) =
     Inr (PDict [(''no-restricted-syntax'', PList [PStr ''error'',
            PDict [(''selector'', PStr ''A''), (''message'', PStr ''m1'')],
            PDict [(''selector'', PStr ''B''), (''message'', PStr ''m3'')]])], ''error'', 2)"
proof -
  have h: "snd (aggregate_eslint_configs
      [(PStr ''error'', PDict [(''selector'', PStr ''A''), (''message'', PStr ''m1'')]),
       (PStr ''warn'', PDict [(''selector'', PStr ''A''), (''message'', PStr ''m2'')]),
       (PStr ''warn'', PDict [(''selector'', PStr ''B''), (''message'', PStr ''m3'')])]) =
     Inr (PDict [(''no-restricted-syntax'', PList [PStr ''error'',
            PDict [(''selector'', PStr ''A''), (''message'', PStr ''m1'')],
            PDict [(''selector'', PStr ''B''), (''message'', PStr ''m3'')]])], ''error'', 2)"
    by (simp add: agg_eval)
  from h aggregate_idempotent [OF h] show ?thesis by (rule conjI)
qed

subsection \<open>The empty result\<close>

text \<open>
  Claim C10 (when no element of the input contributes a dictionary with a non-empty unseen
  selector, the aggregator returns the empty rules object, the severity \<open>warn\<close> and the
  count 0). The claim's condition holds of an input with an element that is not a
  dictionary, and there the aggregator does not return: the selector is read with
  \<open>config.get\<close> before \<open>isinstance(config, dict)\<close> is tested, and the call raises
  \<open>AttributeError\<close>. Here the first configuration is a dictionary without a selector and
  the second is a string.
\<close>

theorem aggregate_empty_raises_on_non_dict:
  "aggregate_eslint_configs
     [(PStr ''warn'', PDict [(''message'', PStr ''m'')]),
      (PStr ''warn'', PStr ''not a config'')] =
   ([AggregatingConfigs 2], Inl AttributeError)"
  by (simp add: agg_eval)

text \<open>
  Where the aggregator returns, the result is as the claim says: when the loop ends with no
  configuration kept, the aggregator returns the empty rules object (no
  \<open>no-restricted-syntax\<close> entry), the severity \<open>warn\<close> and the count 0; this is the case
  for the empty input and for every input of dictionaries none of which has a true
  selector.
\<close>

theorem aggregate_empty:
  "(snd (agg_loop xs agg_init) = Inr st \<and> combined_syntax_configs st = [] \<longrightarrow>
      snd (aggregate_eslint_configs xs) = Inr (PDict [], ''warn'', 0)) \<and>
   (list_all (\<lambda>p. isinstance_dict (snd p) \<and> \<not> truthy (selector_of (snd p))) xs \<longrightarrow>
      snd (aggregate_eslint_configs xs) = Inr (PDict [], ''warn'', 0))"
proof (intro conjI impI)
  assume a: "snd (agg_loop xs agg_init) = Inr st \<and> combined_syntax_configs st = []"
  then have "agg_inv st" using agg_loop_inv [OF agg_inv_init] by blast
  with a have "agg_final st = (PDict [], ''warn'', 0)"
    by (auto simp: agg_inv_def agg_final_def)
  with a show "snd (aggregate_eslint_configs xs) = Inr (PDict [], ''warn'', 0)"
    unfolding aggregate_Inr by auto
next
  assume "list_all (\<lambda>p. isinstance_dict (snd p) \<and> \<not> truthy (selector_of (snd p))) xs"
  then have "agg_loop xs agg_init = ([], Inr agg_init)" by (rule agg_loop_no_selector)
  then show "snd (aggregate_eslint_configs xs) = Inr (PDict [], ''warn'', 0)"
    by (simp add: aggregate_eslint_configs_def agg_final_def agg_init_def)
qed

theorem aggregate_empty_witness:
  "snd (agg_loop [(PStr ''error'', PDict [(''message'', PStr ''m'')])] agg_init) = Inr agg_init \<and>
   combined_syntax_configs agg_init = [] \<and>
   list_all (\<lambda>p. isinstance_dict (snd p) \<and> \<not> truthy (selector_of (snd p)))
     [(PStr ''error'', PDict [(''message'', PStr ''m'')])] \<and>
   snd (aggregate_eslint_configs [(PStr ''error'', PDict [(''message'', PStr ''m'')])]) =
     Inr (PDict [], ''warn'', 0)"
proof -
  have a: "snd (agg_loop [(PStr ''error'', PDict [(''message'', PStr ''m'')])] agg_init) = Inr agg_init \<and>
     combined_syntax_configs agg_init = []"
    by (simp add: agg_step_def agg_init_def dict_get_def)
  have b: "list_all (\<lambda>p. isinstance_dict (snd p) \<and> \<not> truthy (selector_of (snd p)))
     [(PStr ''error'', PDict [(''message'', PStr ''m'')])]"
    by (simp add: selector_of_def dict_get_def)
  from aggregate_empty [of "[(PStr ''error'', PDict [(''message'', PStr ''m'')])]" agg_init] a b
  show ?thesis by blast
qed

end
